theory Spec2Isabelle
  imports Main "HOL-Library.Char_ord" "HOL-Library.List_Lexorder" "HOL-Library.Multiset"
begin

section \<open>Strings\<close>

text \<open>
  Python strings are modelled as HOL strings. \<open>str.lower\<close> is modelled on the ASCII
  letters, which are the only ones that can map onto the letters of the four extensions.
  Strings and lists of strings are compared lexicographically, as Python compares them.
\<close>

definition lower_char :: "char \<Rightarrow> char" where
  "lower_char c =
     (case map_of (zip ''ABCDEFGHIJKLMNOPQRSTUVWXYZ'' ''abcdefghijklmnopqrstuvwxyz'') c of
        Some l \<Rightarrow> l
      | None \<Rightarrow> c)"

definition lower :: "string \<Rightarrow> string" where
  "lower s = map lower_char s"

text \<open>\<open>s.rfind(c)\<close>: the highest index of \<open>c\<close> in \<open>s\<close>, or \<open>-1\<close>.\<close>

fun rfind :: "string \<Rightarrow> char \<Rightarrow> int" where
  "rfind [] c = - 1"
| "rfind (x # xs) c =
     (let i = rfind xs c in if 0 \<le> i then i + 1 else if x = c then 0 else - 1)"

text \<open>\<open>s.split(c)\<close> and \<open>sep.join(ws)\<close>.\<close>

fun split_on :: "char \<Rightarrow> string \<Rightarrow> string list" where
  "split_on c [] = [[]]"
| "split_on c (x # xs) =
     (if x = c then [] # split_on c xs
      else (case split_on c xs of [] \<Rightarrow> [[x]] | w # ws \<Rightarrow> (x # w) # ws))"

fun join :: "string \<Rightarrow> string list \<Rightarrow> string" where
  "join sep [] = []"
| "join sep [w] = w"
| "join sep (w # ws) = w @ sep @ join sep ws"

section \<open>Paths (pathlib, POSIX flavour)\<close>

text \<open>
  A \<open>Path\<close> object holds a root (\<open>''''\<close>, \<open>''/''\<close> or \<open>''//''\<close>) and the list of its
  components. \<open>Path_of\<close> is the constructor \<open>Path(s)\<close>: it splits at the separator and
  drops empty and \<open>.\<close> components.
\<close>

datatype path = Path (path_root: string) (path_tail: "string list")

datatype pathlike = Str string | P path

definition splitroot :: "string \<Rightarrow> string \<times> string" where
  "splitroot s =
     (if take 1 s \<noteq> ''/'' then ([], s)
      else if take 1 (drop 1 s) \<noteq> ''/'' \<or> take 1 (drop 2 s) = ''/'' then (''/'', drop 1 s)
      else (take 2 s, drop 2 s))"

definition Path_of :: "string \<Rightarrow> path" where
  "Path_of s =
     (case splitroot s of
        (r, rel) \<Rightarrow> Path r (filter (\<lambda>x. x \<noteq> [] \<and> x \<noteq> ''.'') (split_on CHR ''/'' rel)))"

text \<open>\<open>str(p)\<close>, also what is passed to the operating system for \<open>p\<close>.\<close>

definition str_path :: "path \<Rightarrow> string" where
  "str_path p =
     (let s = path_root p @ join ''/'' (path_tail p) in if s = [] then ''.'' else s)"

text \<open>\<open>p.name\<close> and \<open>p.suffix\<close>.\<close>

definition path_name :: "path \<Rightarrow> string" where
  "path_name p = (if path_tail p = [] then [] else last (path_tail p))"

definition path_suffix :: "path \<Rightarrow> string" where
  "path_suffix p =
     (let name = path_name p; i = rfind name CHR ''.''
      in if 0 < i \<and> i < int (length name) - 1 then drop (nat i) name else [])"

text \<open>\<open>p / key\<close>: an absolute key replaces \<open>p\<close>, a relative one is appended.\<close>

definition joinpath :: "path \<Rightarrow> string \<Rightarrow> path" where
  "joinpath p key =
     (let q = Path_of key
      in if path_root q \<noteq> [] then q else Path (path_root p) (path_tail p @ path_tail q))"

text \<open>
  Paths are ordered by their list of parts (the root, if any, then the components):
  this is the key that \<open>sorted\<close> compares (\<open>PurePath.__lt__\<close>).
\<close>

definition path_parts :: "path \<Rightarrow> string list" where
  "path_parts p = (if path_root p \<noteq> [] then [path_root p] else []) @ path_tail p"

definition make_child_relpath :: "path \<Rightarrow> string \<Rightarrow> path" where
  "make_child_relpath p part = Path (path_root p) (path_tail p @ [part])"

text \<open>What \<open>str\<close> puts before the name of a child of a directory.\<close>

definition child_prefix :: "path \<Rightarrow> string" where
  "child_prefix d =
     path_root d @ (if path_tail d = [] then [] else join ''/'' (path_tail d) @ ''/'')"

section \<open>Images, pages and documents\<close>

text \<open>
  The image and PDF libraries are black boxes. A decoded image is its colour mode and
  an opaque raster; a page is either an opaque page of an existing document or the page
  that encodes an image at a resolution. The data held by a file or a buffer is
  represented by what the libraries decode it to; image data stands for an image that
  the library decodes and whose raster it can encode.
\<close>

datatype colour_mode = Bilevel | Greyscale | Palette | RGB | RGBA | CMYK

record image =
  im_mode :: colour_mode
  im_raster :: nat

datatype page = SourcePage nat | ImagePage image int

datatype data = NoData | ImageData image | PdfData "page list" | OtherData nat

text \<open>
  The number of bytes of some data is abstracted: only that nothing is zero bytes and
  anything else is more (one unit, and one per page of a document).
\<close>

fun nbytes :: "data \<Rightarrow> nat" where
  "nbytes NoData = 0"
| "nbytes (PdfData pages) = Suc (length pages)"
| "nbytes d = 1"

section \<open>The file system\<close>

text \<open>
  The file system maps a path string, as the program passes it to the operating system,
  to a file with its data or to a directory with its entry names in iteration order
  (\<open>os.listdir\<close>). Symbolic links, permissions and \<open>..\<close> are not modelled.
\<close>

datatype node = File data | Directory "string list"

type_synonym filesystem = "string \<rightharpoonup> node"

datatype exn =
    FileNotFoundError string
  | NotADirectoryError string
  | IsADirectoryError string
  | UnidentifiedImageError string
  | PdfReadError string
  | ZeroDivisionError
  | OverflowError
  | IndexError
  | EOFError


definition iterdir :: "filesystem \<Rightarrow> path \<Rightarrow> exn + path list" where
  "iterdir fs p =
     (case fs (str_path p) of
        None \<Rightarrow> Inl (FileNotFoundError (str_path p))
      | Some (File d) \<Rightarrow> Inl (NotADirectoryError (str_path p))
      | Some (Directory names) \<Rightarrow> Inr (map (make_child_relpath p) names))"

definition is_dir :: "filesystem \<Rightarrow> path \<Rightarrow> bool" where
  "is_dir fs p = (case fs (str_path p) of Some (Directory names) \<Rightarrow> True | _ \<Rightarrow> False)"

definition read_file :: "filesystem \<Rightarrow> string \<Rightarrow> exn + data" where
  "read_file fs f =
     (case fs f of
        None \<Rightarrow> Inl (FileNotFoundError f)
      | Some (Directory names) \<Rightarrow> Inl (IsADirectoryError f)
      | Some (File d) \<Rightarrow> Inr d)"

text \<open>
  \<open>p.open("wb")\<close>: an existing file is truncated; a new file is created in its parent
  directory, which has to exist.
\<close>

definition path_parent :: "path \<Rightarrow> path" where
  "path_parent p = Path (path_root p) (butlast (path_tail p))"

definition open_wb :: "filesystem \<Rightarrow> path \<Rightarrow> exn + filesystem" where
  "open_wb fs p =
     (case fs (str_path p) of
        Some (Directory names) \<Rightarrow> Inl (IsADirectoryError (str_path p))
      | Some (File d) \<Rightarrow> Inr (fs(str_path p \<mapsto> File NoData))
      | None \<Rightarrow>
          (case fs (str_path (path_parent p)) of
             Some (Directory names) \<Rightarrow>
               Inr (fs(str_path (path_parent p) \<mapsto> Directory (names @ [path_name p]),
                       str_path p \<mapsto> File NoData))
           | Some (File d) \<Rightarrow> Inl (NotADirectoryError (str_path p))
           | None \<Rightarrow> Inl (FileNotFoundError (str_path p))))"

section \<open>The libraries\<close>

text \<open>
  \<open>io.BytesIO\<close>: the data of the buffer and the stream position.
\<close>

record bytes_io =
  getvalue :: data
  tell :: nat

definition BytesIO :: bytes_io where
  "BytesIO = \<lparr>getvalue = NoData, tell = 0\<rparr>"

definition seek :: "bytes_io \<Rightarrow> nat \<Rightarrow> bytes_io" where
  "seek b offset = b\<lparr>tell := offset\<rparr>"

text \<open>
  \<open>Image.open\<close> succeeds on a file that holds an image, whatever its name.
  \<open>Image.convert\<close> changes the colour mode. \<open>Image.save(fp, "PDF", resolution=r)\<close>
  writes a document of one page and leaves the stream after it. Pillow's PDF encoder
  (\<open>PdfImagePlugin._save\<close>) computes the size of the page as
  \<open>width * 72.0 / resolution\<close>, a division of a float by the int that was passed.
  Python first converts the int to a float, rounding to nearest: an int of magnitude
  \<open>2 ^ 1024 - 2 ^ 970\<close> or more rounds beyond the largest float and raises
  \<open>OverflowError\<close>. Then a divisor of zero raises \<open>ZeroDivisionError\<close>. A negative
  resolution raises nothing.
\<close>

definition fits_float :: "int \<Rightarrow> bool" where
  "fits_float n = (\<bar>n\<bar> < 2 ^ 1024 - 2 ^ 970)"

text \<open>The exception, if any, of \<open>x / n\<close> for a finite float \<open>x\<close> and an int \<open>n\<close>.\<close>

definition float_truediv_int :: "int \<Rightarrow> exn option" where
  "float_truediv_int n =
     (if \<not> fits_float n then Some OverflowError
      else if n = 0 then Some ZeroDivisionError
      else None)"

definition Image_open :: "filesystem \<Rightarrow> path \<Rightarrow> exn + image" where
  "Image_open fs p =
     (case read_file fs (str_path p) of
        Inl e \<Rightarrow> Inl e
      | Inr (ImageData img) \<Rightarrow> Inr img
      | Inr _ \<Rightarrow> Inl (UnidentifiedImageError (str_path p)))"

definition Image_convert :: "image \<Rightarrow> colour_mode \<Rightarrow> image" where
  "Image_convert img m = img\<lparr>im_mode := m\<rparr>"

definition Image_save_pdf :: "image \<Rightarrow> bytes_io \<Rightarrow> int \<Rightarrow> exn + bytes_io" where
  "Image_save_pdf img fp resolution =
     (case float_truediv_int resolution of
        Some e \<Rightarrow> Inl e
      | None \<Rightarrow>
          Inr \<lparr>getvalue = PdfData [ImagePage img resolution],
               tell = tell fp + nbytes (PdfData [ImagePage img resolution])\<rparr>)"

text \<open>
  \<open>pypdf.PdfReader\<close> on a file name or on a stream: the reader is its list of pages.
  \<open>pypdf.PdfWriter\<close> is the list of the pages added so far; \<open>write\<close> serialises it.
\<close>

definition PdfReader_file :: "filesystem \<Rightarrow> string \<Rightarrow> exn + page list" where
  "PdfReader_file fs f =
     (case read_file fs f of
        Inl e \<Rightarrow> Inl e
      | Inr (PdfData pages) \<Rightarrow> Inr pages
      | Inr _ \<Rightarrow> Inl (PdfReadError ''EOF marker not found''))"

definition PdfReader_stream :: "bytes_io \<Rightarrow> exn + page list" where
  "PdfReader_stream b =
     (case getvalue b of
        PdfData pages \<Rightarrow> Inr pages
      | _ \<Rightarrow> Inl (PdfReadError ''EOF marker not found''))"

type_synonym pdf_writer = "page list"

definition PdfWriter :: pdf_writer where
  "PdfWriter = []"

definition add_page :: "pdf_writer \<Rightarrow> page \<Rightarrow> pdf_writer" where
  "add_page w pg = w @ [pg]"

definition PdfWriter_write :: "pdf_writer \<Rightarrow> filesystem \<Rightarrow> path \<Rightarrow> filesystem" where
  "PdfWriter_write w fs p = fs(str_path p \<mapsto> File (PdfData w))"

section \<open>combine\_files.py\<close>

definition DEFAULT_OUTPUT_FILENAME :: "string \<Rightarrow> string" where
  "DEFAULT_OUTPUT_FILENAME name = name @ ''_combined_output.pdf''"

definition ensure_path :: "pathlike \<Rightarrow> path" where
  "ensure_path path = (case path of Str s \<Rightarrow> Path_of s | P p \<Rightarrow> p)"

definition valid_extensions :: "string list" where
  "valid_extensions = [''.png'', ''.jpeg'', ''.jpg'', ''.pdf'']"

definition get_input_files :: "filesystem \<Rightarrow> pathlike \<Rightarrow> exn + path list" where
  "get_input_files fs directory0 =
     (let directory = ensure_path directory0
      in case iterdir fs directory of
           Inl e \<Rightarrow> Inl e
         | Inr entries \<Rightarrow>
             Inr (sort_key path_parts
                    (filter (\<lambda>file. lower (path_suffix file) \<in> set valid_extensions) entries)))"

definition convert_image_to_pdf :: "filesystem \<Rightarrow> pathlike \<Rightarrow> int \<Rightarrow> exn + bytes_io" where
  "convert_image_to_pdf fs image_path0 image_dpi =
     (let image_path = ensure_path image_path0
      in case Image_open fs image_path of
           Inl e \<Rightarrow> Inl e
         | Inr img \<Rightarrow>
             (let pdf_bytes = BytesIO
              in case Image_save_pdf (Image_convert img RGB) pdf_bytes image_dpi of
                   Inl e \<Rightarrow> Inl e
                 | Inr pdf_bytes \<Rightarrow> Inr (seek pdf_bytes 0)))"

text \<open>The loops of \<open>convert_files_to_pdf\<close>: over the pages of a reader, and over the files.\<close>

fun add_pages :: "pdf_writer \<Rightarrow> page list \<Rightarrow> pdf_writer" where
  "add_pages pdf_writer [] = pdf_writer"
| "add_pages pdf_writer (pg # pages) = add_pages (add_page pdf_writer pg) pages"

fun process_files :: "filesystem \<Rightarrow> int \<Rightarrow> pdf_writer \<Rightarrow> path list \<Rightarrow> exn + pdf_writer" where
  "process_files fs image_dpi pdf_writer [] = Inr pdf_writer"
| "process_files fs image_dpi pdf_writer (file # files) =
     (if lower (path_suffix file) = ''.pdf'' then
        (case PdfReader_file fs (str_path file) of
           Inl e \<Rightarrow> Inl e
         | Inr pages \<Rightarrow> process_files fs image_dpi (add_pages pdf_writer pages) files)
      else
        (case convert_image_to_pdf fs (P file) image_dpi of
           Inl e \<Rightarrow> Inl e
         | Inr pdf_bytes \<Rightarrow>
             (case PdfReader_stream pdf_bytes of
                Inl e \<Rightarrow> Inl e
              | Inr [] \<Rightarrow> Inl IndexError
              | Inr (pg # pages) \<Rightarrow> process_files fs image_dpi (add_page pdf_writer pg) files)))"

text \<open>Lines 73 to 76: the save path, with the default file name inside a directory.\<close>

definition resolve_save_path :: "filesystem \<Rightarrow> pathlike \<Rightarrow> pathlike \<Rightarrow> path" where
  "resolve_save_path fs directory0 save_path0 =
     (let directory = ensure_path directory0;
          save_path = ensure_path save_path0
      in if is_dir fs save_path
         then joinpath save_path (DEFAULT_OUTPUT_FILENAME (path_name directory))
         else save_path)"

definition convert_files_to_pdf ::
  "filesystem \<Rightarrow> pathlike \<Rightarrow> pathlike \<Rightarrow> int \<Rightarrow> filesystem \<times> (exn + path)" where
  "convert_files_to_pdf fs directory0 save_path0 image_dpi =
     (let directory = ensure_path directory0;
          save_path = resolve_save_path fs directory0 save_path0;
          pdf_writer = PdfWriter
      in case get_input_files fs (P directory) of
           Inl e \<Rightarrow> (fs, Inl e)
         | Inr input_files \<Rightarrow>
             (case process_files fs image_dpi pdf_writer input_files of
                Inl e \<Rightarrow> (fs, Inl e)
              | Inr pdf_writer \<Rightarrow>
                  (case open_wb fs save_path of
                     Inl e \<Rightarrow> (fs, Inl e)
                   | Inr fs1 \<Rightarrow> (PdfWriter_write pdf_writer fs1 save_path, Inr save_path))))"










section \<open>What the specification expects\<close>

text \<open>
  The pages a scanned file contributes, in the words of the specification: a PDF (by its
  lower-cased extension) contributes all its pages in their order, any other file
  the one page of its image, converted to RGB, at the given resolution. The expected
  document is the concatenation over the scanner's list.
\<close>

definition pages_of_source :: "filesystem \<Rightarrow> int \<Rightarrow> path \<Rightarrow> page list option" where
  "pages_of_source fs image_dpi file =
     (if lower (path_suffix file) = ''.pdf'' then
        (case fs (str_path file) of
           Some (File (PdfData pages)) \<Rightarrow> Some pages
         | _ \<Rightarrow> None)
      else
        (case fs (str_path file) of
           Some (File (ImageData img)) \<Rightarrow> Some [ImagePage (img\<lparr>im_mode := RGB\<rparr>) image_dpi]
         | _ \<Rightarrow> None))"

definition expected_document :: "filesystem \<Rightarrow> pathlike \<Rightarrow> int \<Rightarrow> page list option" where
  "expected_document fs directory image_dpi =
     (case get_input_files fs directory of
        Inl e \<Rightarrow> None
      | Inr files \<Rightarrow> map_option concat (those (map (pages_of_source fs image_dpi) files)))"

text \<open>The scanner's filter on one path.\<close>

definition has_valid_extension :: "path \<Rightarrow> bool" where
  "has_valid_extension file = (lower (path_suffix file) \<in> set valid_extensions)"

section \<open>Example file systems\<close>

definition example_fs :: filesystem where
  "example_fs =
     [''.'' \<mapsto> Directory [''photos'', ''out''],
      ''photos'' \<mapsto> Directory [''b.PNG'', ''X.PDF'', ''notes.txt'', ''sub'', ''c.jpg'', ''a.pdf''],
      ''photos/a.pdf'' \<mapsto> File (PdfData [SourcePage 1, SourcePage 2]),
      ''photos/X.PDF'' \<mapsto> File (PdfData [SourcePage 3]),
      ''photos/b.PNG'' \<mapsto> File (ImageData \<lparr>im_mode = RGBA, im_raster = 7\<rparr>),
      ''photos/c.jpg'' \<mapsto> File (ImageData \<lparr>im_mode = CMYK, im_raster = 8\<rparr>),
      ''photos/notes.txt'' \<mapsto> File (OtherData 0),
      ''photos/sub'' \<mapsto> Directory [''inner.png''],
      ''photos/sub/inner.png'' \<mapsto> File (ImageData \<lparr>im_mode = RGB, im_raster = 9\<rparr>),
      ''out'' \<mapsto> Directory []]"

text \<open>Three valid images, one corrupt image, and an output file of an earlier run.\<close>

definition corrupt_fs :: filesystem where
  "corrupt_fs =
     [''.'' \<mapsto> Directory [''in'', ''old.pdf''],
      ''old.pdf'' \<mapsto> File (PdfData [SourcePage 5]),
      ''in'' \<mapsto> Directory [''4.png'', ''1.png'', ''3.png'', ''2.png''],
      ''in/1.png'' \<mapsto> File (ImageData \<lparr>im_mode = RGB, im_raster = 1\<rparr>),
      ''in/2.png'' \<mapsto> File (ImageData \<lparr>im_mode = RGB, im_raster = 2\<rparr>),
      ''in/3.png'' \<mapsto> File (OtherData 3),
      ''in/4.png'' \<mapsto> File (ImageData \<lparr>im_mode = RGB, im_raster = 4\<rparr>)]"

text \<open>A directory whose only input file is a document of three pages.\<close>

definition single_pdf_fs :: filesystem where
  "single_pdf_fs =
     [''.'' \<mapsto> Directory [''docs''],
      ''docs'' \<mapsto> Directory [''README'', ''report.pdf''],
      ''docs/README'' \<mapsto> File (OtherData 0),
      ''docs/report.pdf'' \<mapsto> File (PdfData [SourcePage 1, SourcePage 2, SourcePage 3])]"

text \<open>A directory without any entry of a listed extension.\<close>

definition no_match_fs :: filesystem where
  "no_match_fs =
     [''.'' \<mapsto> Directory [''misc''],
      ''misc'' \<mapsto> Directory [''notes.txt'', ''archive.tar.gz'', ''.pdf'', ''png'', ''sub''],
      ''misc/notes.txt'' \<mapsto> File (OtherData 0),
      ''misc/archive.tar.gz'' \<mapsto> File (OtherData 1),
      ''misc/.pdf'' \<mapsto> File (PdfData [SourcePage 1]),
      ''misc/png'' \<mapsto> File (ImageData \<lparr>im_mode = RGB, im_raster = 1\<rparr>),
      ''misc/sub'' \<mapsto> Directory []]"

text \<open>A directory with two subdirectories, one of them named like a document.\<close>

definition subdirs_fs :: filesystem where
  "subdirs_fs =
     [''in'' \<mapsto> Directory [''scans.pdf'', ''plain''],
      ''in/scans.pdf'' \<mapsto> Directory [],
      ''in/plain'' \<mapsto> Directory []]"

section \<open>Auxiliary facts\<close>

lemma add_pages_append: "add_pages w pages = w @ pages"
  by (induction pages arbitrary: w) (simp_all add: add_page_def)

lemma path_parts_child: "path_parts (make_child_relpath d n) = path_parts d @ [n]"
  by (simp add: path_parts_def make_child_relpath_def)

lemma join_snoc: "join sep (ws @ [w]) = (if ws = [] then w else join sep ws @ sep @ w)"
  by (induction sep ws rule: join.induct) auto

lemma str_path_child: "n \<noteq> [] \<Longrightarrow> str_path (make_child_relpath d n) = child_prefix d @ n"
  by (simp add: str_path_def make_child_relpath_def child_prefix_def join_snoc Let_def)

lemma valid_extension_nonempty:
  "has_valid_extension (make_child_relpath d n) \<Longrightarrow> n \<noteq> []"
proof
  assume h: "has_valid_extension (make_child_relpath d n)" and n: "n = []"
  have "path_suffix (make_child_relpath d n) = []"
    by (simp add: n path_suffix_def path_name_def make_child_relpath_def)
  with h show False
    by (simp add: has_valid_extension_def lower_def valid_extensions_def)
qed

lemma append_le_append: "(xs @ ys \<le> xs @ zs) = (ys \<le> (zs :: 'a::linorder list))"
  by (induction xs) auto

lemma get_input_files_Directory:
  assumes "fs (str_path (ensure_path directory)) = Some (Directory names)"
  shows   "get_input_files fs directory =
     Inr (sort_key path_parts (filter has_valid_extension (map (make_child_relpath (ensure_path directory)) names)))"
proof -
  have "has_valid_extension = (\<lambda>file. lower (path_suffix file) \<in> set valid_extensions)"
    by (rule ext) (simp add: has_valid_extension_def)
  with assms show ?thesis
    by (simp add: get_input_files_def iterdir_def Let_def)
qed

lemma children_sorted_by_str:
  assumes "sorted (map path_parts files)"
    and "\<forall>file \<in> set files. \<exists>n. n \<noteq> [] \<and> file = make_child_relpath d n"
  shows "sorted (map str_path files)"
proof -
  have "sorted_wrt (\<lambda>x y. path_parts x \<le> path_parts y) files"
    using assms(1) by (simp add: sorted_map)
  then have "sorted_wrt (\<lambda>x y. str_path x \<le> str_path y) files"
  proof (rule sorted_wrt_mono_rel [rotated])
    fix x y
    assume "x \<in> set files" "y \<in> set files" and le: "path_parts x \<le> path_parts y"
    then obtain n m where x: "x = make_child_relpath d n" "n \<noteq> []"
      and y: "y = make_child_relpath d m" "m \<noteq> []"
      using assms(2) by blast
    from le have "n \<le> m"
      by (auto simp: x y path_parts_child append_le_append)
    then show "str_path x \<le> str_path y"
      by (simp add: x y str_path_child append_le_append)
  qed
  then show ?thesis by (simp add: sorted_map)
qed

lemma inj_on_path_parts_children:
  "inj_on path_parts (make_child_relpath d ` A)"
  by (rule inj_onI) (auto simp: path_parts_child)

lemma get_input_files_ensure_path:
  "get_input_files fs (P (ensure_path directory)) = get_input_files fs directory"
  by (simp add: get_input_files_def ensure_path_def)

lemma PdfReader_file_Inr:
  "PdfReader_file fs f = Inr pages \<longleftrightarrow> fs f = Some (File (PdfData pages))"
  by (auto simp: PdfReader_file_def read_file_def
      split: option.splits node.splits data.splits sum.splits)

lemma Image_open_Inr:
  "Image_open fs p = Inr img \<longleftrightarrow> fs (str_path p) = Some (File (ImageData img))"
  by (auto simp: Image_open_def read_file_def
      split: option.splits node.splits data.splits sum.splits)

lemma convert_image_to_pdf_Image:
  assumes "Image_open fs (ensure_path image_path) = Inr img"
  shows "convert_image_to_pdf fs image_path image_dpi =
     (case float_truediv_int image_dpi of
        Some e \<Rightarrow> Inl e
      | None \<Rightarrow>
          Inr \<lparr>getvalue = PdfData [ImagePage (img\<lparr>im_mode := RGB\<rparr>) image_dpi], tell = 0\<rparr>)"
  using assms
  by (simp add: convert_image_to_pdf_def Image_save_pdf_def Image_convert_def seek_def BytesIO_def
      split: option.splits)

lemma convert_image_to_pdf_Inr:
  assumes "convert_image_to_pdf fs image_path image_dpi = Inr b"
  shows "\<exists>img. Image_open fs (ensure_path image_path) = Inr img
     \<and> b = \<lparr>getvalue = PdfData [ImagePage (img\<lparr>im_mode := RGB\<rparr>) image_dpi], tell = 0\<rparr>"
proof (cases "Image_open fs (ensure_path image_path)")
  case (Inl e)
  with assms show ?thesis by (simp add: convert_image_to_pdf_def)
next
  case (Inr img)
  with assms convert_image_to_pdf_Image [OF Inr, of image_dpi] show ?thesis
    by (auto split: option.splits)
qed

lemma process_files_Inr:
  "process_files fs image_dpi w files = Inr w' \<Longrightarrow>
   \<exists>pss. those (map (pages_of_source fs image_dpi) files) = Some pss \<and> w' = w @ concat pss"
proof (induction files arbitrary: w)
  case Nil
  then show ?case by simp
next
  case (Cons f files)
  show ?case
  proof (cases "lower (path_suffix f) = ''.pdf''")
    case True
    with Cons.prems obtain pages where
      r: "PdfReader_file fs (str_path f) = Inr pages"
      and rest: "process_files fs image_dpi (add_pages w pages) files = Inr w'"
      by (auto split: sum.splits)
    from r have src: "pages_of_source fs image_dpi f = Some pages"
      by (simp add: pages_of_source_def True PdfReader_file_Inr)
    from Cons.IH [OF rest] obtain pss where
      "those (map (pages_of_source fs image_dpi) files) = Some pss"
      "w' = add_pages w pages @ concat pss" by blast
    with src show ?thesis by (simp add: add_pages_append)
  next
    case False
    with Cons.prems obtain b pg pages where
      c: "convert_image_to_pdf fs (P f) image_dpi = Inr b"
      and r: "PdfReader_stream b = Inr (pg # pages)"
      and rest: "process_files fs image_dpi (add_page w pg) files = Inr w'"
      by (auto split: sum.splits list.splits)
    from convert_image_to_pdf_Inr [OF c] obtain img where
      img: "fs (str_path f) = Some (File (ImageData img))"
      and b: "b = \<lparr>getvalue = PdfData [ImagePage (img\<lparr>im_mode := RGB\<rparr>) image_dpi], tell = 0\<rparr>"
      by (auto simp: Image_open_Inr ensure_path_def)
    from r b have pg: "pg = ImagePage (img\<lparr>im_mode := RGB\<rparr>) image_dpi"
      by (simp add: PdfReader_stream_def)
    from img have src: "pages_of_source fs image_dpi f = Some [pg]"
      by (simp add: pages_of_source_def False pg)
    from Cons.IH [OF rest] obtain pss where
      "those (map (pages_of_source fs image_dpi) files) = Some pss"
      "w' = add_page w pg @ concat pss" by blast
    with src show ?thesis by (simp add: add_page_def)
  qed
qed

lemma convert_files_to_pdf_Inr:
  assumes "convert_files_to_pdf fs directory save_path image_dpi = (fs', Inr out)"
  shows "\<exists>files w fs1. get_input_files fs directory = Inr files
      \<and> process_files fs image_dpi PdfWriter files = Inr w
      \<and> open_wb fs (resolve_save_path fs directory save_path) = Inr fs1
      \<and> out = resolve_save_path fs directory save_path
      \<and> fs' = PdfWriter_write w fs1 out"
  using assms
  by (auto simp: convert_files_to_pdf_def get_input_files_ensure_path Let_def split: sum.splits)

lemma resolve_save_path_is_dir:
  "is_dir fs (ensure_path save_path) \<Longrightarrow>
   resolve_save_path fs directory save_path =
     joinpath (ensure_path save_path) (path_name (ensure_path directory) @ ''_combined_output.pdf'')"
  by (simp add: resolve_save_path_def DEFAULT_OUTPUT_FILENAME_def)


text \<open>The definitions that evaluate the model on a concrete file system.\<close>

lemmas eval_defs =
  get_input_files_def ensure_path_def Path_of_def splitroot_def iterdir_def str_path_def
  make_child_relpath_def path_suffix_def path_name_def lower_def lower_char_def
  valid_extensions_def path_parts_def convert_files_to_pdf_def resolve_save_path_def is_dir_def
  joinpath_def DEFAULT_OUTPUT_FILENAME_def PdfWriter_def PdfReader_file_def read_file_def
  convert_image_to_pdf_def Image_open_def Image_save_pdf_def Image_convert_def BytesIO_def
  float_truediv_int_def fits_float_def
  seek_def PdfReader_stream_def add_page_def open_wb_def path_parent_def PdfWriter_write_def
  pages_of_source_def expected_document_def has_valid_extension_def

section \<open>The claims\<close>

subsection \<open>The scanner\<close>

text \<open>
  C2. For a directory, \<open>get_input_files\<close> returns exactly its immediate entries whose
  extension, lower-cased, is one of the four listed ones; the result is sorted ascending
  by the full path string, and is the same for every iteration order of the entries.
\<close>

theorem get_input_files_sorted_filter:
  assumes "fs (str_path (ensure_path directory)) = Some (Directory names)"
  shows "\<exists>files. get_input_files fs directory = Inr files
      \<and> mset files =
          mset (filter has_valid_extension (map (make_child_relpath (ensure_path directory)) names))
      \<and> sorted (map str_path files)
      \<and> (\<forall>fs2 names2. fs2 (str_path (ensure_path directory)) = Some (Directory names2)
            \<and> mset names2 = mset names \<longrightarrow> get_input_files fs2 directory = Inr files)"
proof -
  define d where "d = ensure_path directory"
  define files where
    "files = sort_key path_parts (filter has_valid_extension (map (make_child_relpath d) names))"
  have scan: "get_input_files fs directory = Inr files"
    using assms by (simp add: get_input_files_Directory [of fs directory names] files_def d_def)
  have entries: "mset files = mset (filter has_valid_extension (map (make_child_relpath d) names))"
    by (simp add: files_def)
  have children: "\<forall>file \<in> set files. \<exists>n. n \<noteq> [] \<and> file = make_child_relpath d n"
    by (auto simp: files_def dest: valid_extension_nonempty)
  have "sorted (map path_parts files)"
    by (simp add: files_def)
  then have by_str: "sorted (map str_path files)"
    using children by (rule children_sorted_by_str)
  have order: "get_input_files fs2 directory = Inr files"
    if dir2: "fs2 (str_path (ensure_path directory)) = Some (Directory names2)"
      and perm: "mset names2 = mset names" for fs2 names2
  proof -
    let ?xs = "filter has_valid_extension (map (make_child_relpath d) names2)"
    have "mset (map (make_child_relpath d) names2) = mset (map (make_child_relpath d) names)"
      using perm by (metis mset_map)
    then have "mset ?xs = mset files"
      by (simp add: files_def)
    moreover have "inj_on path_parts (set ?xs)"
      by (rule inj_on_subset [OF inj_on_path_parts_children [of d "set names2"]]) auto
    moreover have "sorted (map path_parts files)"
      by (simp add: files_def)
    ultimately have "sort_key path_parts ?xs = files"
      by (rule sort_key_inj_key_eq)
    then show ?thesis
      using dir2 by (simp add: get_input_files_Directory [of fs2 directory names2] d_def)
  qed
  from scan entries by_str order show ?thesis
    unfolding d_def by blast
qed

theorem get_input_files_sorted_filter_witness:
  "example_fs (str_path (ensure_path (Str ''photos''))) =
     Some (Directory [''b.PNG'', ''X.PDF'', ''notes.txt'', ''sub'', ''c.jpg'', ''a.pdf''])
   \<and> get_input_files example_fs (Str ''photos'') =
       Inr [Path [] [''photos'', ''X.PDF''], Path [] [''photos'', ''a.pdf''],
            Path [] [''photos'', ''b.PNG''], Path [] [''photos'', ''c.jpg'']]
   \<and> get_input_files
        (example_fs(''photos'' \<mapsto>
           Directory [''a.pdf'', ''c.jpg'', ''sub'', ''notes.txt'', ''X.PDF'', ''b.PNG'']))
        (Str ''photos'') =
       Inr [Path [] [''photos'', ''X.PDF''], Path [] [''photos'', ''a.pdf''],
            Path [] [''photos'', ''b.PNG''], Path [] [''photos'', ''c.jpg'']]"
proof -
  let ?names = "[''b.PNG'', ''X.PDF'', ''notes.txt'', ''sub'', ''c.jpg'', ''a.pdf'']"
  let ?names2 = "[''a.pdf'', ''c.jpg'', ''sub'', ''notes.txt'', ''X.PDF'', ''b.PNG'']"
  let ?fs2 = "example_fs(''photos'' \<mapsto> Directory ?names2)"
  have s: "str_path (ensure_path (Str ''photos'')) = ''photos''"
    by (simp add: str_path_def ensure_path_def Path_of_def splitroot_def)
  have h: "example_fs (str_path (ensure_path (Str ''photos''))) = Some (Directory ?names)"
    by (simp add: s example_fs_def)
  have scan: "get_input_files example_fs (Str ''photos'') =
       Inr [Path [] [''photos'', ''X.PDF''], Path [] [''photos'', ''a.pdf''],
            Path [] [''photos'', ''b.PNG''], Path [] [''photos'', ''c.jpg'']]"
    by (simp add: example_fs_def get_input_files_def ensure_path_def Path_of_def splitroot_def
        iterdir_def str_path_def make_child_relpath_def path_suffix_def path_name_def lower_def
        lower_char_def valid_extensions_def path_parts_def)
  have h2: "?fs2 (str_path (ensure_path (Str ''photos''))) = Some (Directory ?names2)"
    by (simp add: s)
  have perm: "mset ?names2 = mset ?names"
    by (simp add: add_mset_commute)
  from get_input_files_sorted_filter [of example_fs "Str ''photos''" ?names] h scan h2 perm
  have "get_input_files ?fs2 (Str ''photos'') =
       Inr [Path [] [''photos'', ''X.PDF''], Path [] [''photos'', ''a.pdf''],
            Path [] [''photos'', ''b.PNG''], Path [] [''photos'', ''c.jpg'']]"
    by auto
  with h scan show ?thesis by blast
qed

text \<open>
  C8, as amended. The scanner looks at names only. An entry that is a subdirectory is
  returned exactly when its lower-cased extension is one of the four listed ones, and
  is skipped otherwise; the entries inside a subdirectory are never returned.
\<close>

theorem subdirectory_listed_by_extension:
  assumes "fs (str_path (ensure_path directory)) = Some (Directory names)"
    and "n \<in> set names"
    and "fs (str_path (make_child_relpath (ensure_path directory) n)) = Some (Directory sub)"
  shows "\<exists>files. get_input_files fs directory = Inr files
     \<and> (make_child_relpath (ensure_path directory) n \<in> set files \<longleftrightarrow>
          has_valid_extension (make_child_relpath (ensure_path directory) n))
     \<and> (\<forall>m. make_child_relpath (make_child_relpath (ensure_path directory) n) m \<notin> set files)"
proof -
  define d where "d = ensure_path directory"
  define files where
    "files = sort_key path_parts (filter has_valid_extension (map (make_child_relpath d) names))"
  have scan: "get_input_files fs directory = Inr files"
    using assms(1) by (simp add: get_input_files_Directory [of fs directory names] files_def d_def)
  have listed: "make_child_relpath d n \<in> set files \<longleftrightarrow> has_valid_extension (make_child_relpath d n)"
    using assms(2) by (auto simp: files_def)
  have inner: "make_child_relpath (make_child_relpath d n) m \<notin> set files" for m
    by (auto simp: files_def make_child_relpath_def)
  from scan listed inner show ?thesis
    unfolding d_def by blast
qed

theorem subdirectory_listed_by_extension_witness:
  "subdirs_fs (str_path (ensure_path (Str ''in''))) = Some (Directory [''scans.pdf'', ''plain''])
   \<and> subdirs_fs (str_path (make_child_relpath (ensure_path (Str ''in'')) ''plain'')) =
       Some (Directory [])
   \<and> \<not> has_valid_extension (make_child_relpath (ensure_path (Str ''in'')) ''plain'')
   \<and> get_input_files subdirs_fs (Str ''in'') = Inr [Path [] [''in'', ''scans.pdf'']]
   \<and> make_child_relpath (ensure_path (Str ''in'')) ''plain'' \<notin> set [Path [] [''in'', ''scans.pdf'']]"
proof -
  have d: "ensure_path (Str ''in'') = Path [] [''in'']"
    by (simp add: ensure_path_def Path_of_def splitroot_def)
  have h1: "subdirs_fs (str_path (ensure_path (Str ''in''))) =
      Some (Directory [''scans.pdf'', ''plain''])"
    by (simp add: d str_path_def subdirs_fs_def)
  have h2: "''plain'' \<in> set [''scans.pdf'', ''plain'']"
    by simp
  have h3: "subdirs_fs (str_path (make_child_relpath (ensure_path (Str ''in'')) ''plain'')) =
      Some (Directory [])"
    by (simp add: d make_child_relpath_def str_path_def subdirs_fs_def)
  have no: "\<not> has_valid_extension (make_child_relpath (ensure_path (Str ''in'')) ''plain'')"
    by (simp add: d has_valid_extension_def make_child_relpath_def path_suffix_def path_name_def
        lower_def valid_extensions_def)
  have scan: "get_input_files subdirs_fs (Str ''in'') = Inr [Path [] [''in'', ''scans.pdf'']]"
    by (simp add: subdirs_fs_def eval_defs)
  from subdirectory_listed_by_extension [of subdirs_fs "Str ''in''" _ "''plain''" "[]"] h1 h2 h3
  have "make_child_relpath (ensure_path (Str ''in'')) ''plain'' \<notin> set [Path [] [''in'', ''scans.pdf'']]"
    using no scan by auto
  with h1 h3 no scan show ?thesis by blast
qed

text \<open>
  As first stated (every subdirectory is skipped, whatever its name) the claim fails:
  a subdirectory named \<open>scans.pdf\<close> is returned.
\<close>

theorem subdirectory_with_extension_listed:
  "subdirs_fs ''in/scans.pdf'' = Some (Directory [])
   \<and> get_input_files subdirs_fs (Str ''in'') = Inr [Path [] [''in'', ''scans.pdf'']]"
  by (simp add: subdirs_fs_def eval_defs)

subsection \<open>The assembler\<close>

text \<open>
  C1. When \<open>convert_files_to_pdf\<close> returns, the document at the returned path holds the
  pages of the scanned files in the scanner's order: for a PDF all its pages in their
  order, for any other file the one page of its image.
\<close>

theorem output_pages_in_scan_order:
  assumes "convert_files_to_pdf fs directory save_path image_dpi = (fs', Inr out)"
  shows "expected_document fs directory image_dpi \<noteq> None
     \<and> fs' (str_path out) =
         map_option (\<lambda>doc. File (PdfData doc)) (expected_document fs directory image_dpi)"
proof -
  from convert_files_to_pdf_Inr [OF assms] obtain files w fs1 where
    scan: "get_input_files fs directory = Inr files"
    and loop: "process_files fs image_dpi PdfWriter files = Inr w"
    and fs': "fs' = PdfWriter_write w fs1 out" by blast
  from process_files_Inr [OF loop] obtain pss where
    pss: "those (map (pages_of_source fs image_dpi) files) = Some pss" and w: "w = concat pss"
    by (auto simp: PdfWriter_def)
  have "expected_document fs directory image_dpi = Some w"
    by (simp add: expected_document_def scan pss w)
  moreover have "fs' (str_path out) = Some (File (PdfData w))"
    by (simp add: fs' PdfWriter_write_def)
  ultimately show ?thesis by simp
qed

theorem output_pages_in_scan_order_witness:
  "snd (convert_files_to_pdf example_fs (Str ''photos'') (Str ''out/'') 300) =
     Inr (Path [] [''out'', ''photos_combined_output.pdf''])
   \<and> get_input_files example_fs (Str ''photos'') =
       Inr [Path [] [''photos'', ''X.PDF''], Path [] [''photos'', ''a.pdf''],
            Path [] [''photos'', ''b.PNG''], Path [] [''photos'', ''c.jpg'']]
   \<and> fst (convert_files_to_pdf example_fs (Str ''photos'') (Str ''out/'') 300)
        ''out/photos_combined_output.pdf'' =
       Some (File (PdfData
         [SourcePage 3, SourcePage 1, SourcePage 2,
          ImagePage \<lparr>im_mode = RGB, im_raster = 7\<rparr> 300,
          ImagePage \<lparr>im_mode = RGB, im_raster = 8\<rparr> 300]))"
proof -
  let ?run = "convert_files_to_pdf example_fs (Str ''photos'') (Str ''out/'') 300"
  let ?out = "Path [] [''out'', ''photos_combined_output.pdf'']"
  have scan: "get_input_files example_fs (Str ''photos'') =
       Inr [Path [] [''photos'', ''X.PDF''], Path [] [''photos'', ''a.pdf''],
            Path [] [''photos'', ''b.PNG''], Path [] [''photos'', ''c.jpg'']]"
    by (simp add: example_fs_def eval_defs)
  have r: "snd ?run = Inr ?out"
    by (simp add: example_fs_def eval_defs)
  then have h: "?run = (fst ?run, Inr ?out)"
    by (metis prod.collapse)
  have doc: "expected_document example_fs (Str ''photos'') 300 =
       Some [SourcePage 3, SourcePage 1, SourcePage 2,
          ImagePage \<lparr>im_mode = RGB, im_raster = 7\<rparr> 300,
          ImagePage \<lparr>im_mode = RGB, im_raster = 8\<rparr> 300]"
    unfolding expected_document_def scan
    by (simp add: example_fs_def pages_of_source_def str_path_def path_suffix_def path_name_def
        lower_def lower_char_def)
  have out: "str_path ?out = ''out/photos_combined_output.pdf''"
    by (simp add: str_path_def)
  from output_pages_in_scan_order [OF h] doc out r scan show ?thesis
    by simp
qed

text \<open>
  C10. The loop chooses the branch by the lower-cased suffix, as the scanner's filter
  does: a file whose lower-cased suffix is \<open>.pdf\<close>, such as \<open>X.PDF\<close>, passes the
  filter, is read by the PDF reader with all its pages added, and is not rasterised
  (when it holds an image, the PDF reader's error is the result).
\<close>

theorem pdf_branch_by_lowercased_suffix:
  assumes "lower (path_suffix src) = ''.pdf''"
  shows "has_valid_extension src
     \<and> process_files fs image_dpi pdf_writer (src # files) =
         (case PdfReader_file fs (str_path src) of
            Inl e \<Rightarrow> Inl e
          | Inr pages \<Rightarrow> process_files fs image_dpi (pdf_writer @ pages) files)
     \<and> (\<forall>pages. fs (str_path src) = Some (File (PdfData pages)) \<longrightarrow>
           process_files fs image_dpi pdf_writer [src] = Inr (pdf_writer @ pages))
     \<and> (\<forall>img. fs (str_path src) = Some (File (ImageData img)) \<longrightarrow>
           process_files fs image_dpi pdf_writer (src # files) =
             Inl (PdfReadError ''EOF marker not found''))"
proof (intro conjI allI impI)
  show "has_valid_extension src"
    using assms by (simp add: has_valid_extension_def valid_extensions_def)
  show step: "process_files fs image_dpi pdf_writer (src # files) =
         (case PdfReader_file fs (str_path src) of
            Inl e \<Rightarrow> Inl e
          | Inr pages \<Rightarrow> process_files fs image_dpi (pdf_writer @ pages) files)" for files
    using assms by (simp add: add_pages_append split: sum.splits)
  show "process_files fs image_dpi pdf_writer [src] = Inr (pdf_writer @ pages)"
    if "fs (str_path src) = Some (File (PdfData pages))" for pages
  proof -
    from that have "PdfReader_file fs (str_path src) = Inr pages"
      by (simp add: PdfReader_file_Inr)
    then show ?thesis
      unfolding step by simp
  qed
  show "process_files fs image_dpi pdf_writer (src # files) =
      Inl (PdfReadError ''EOF marker not found'')"
    if "fs (str_path src) = Some (File (ImageData img))" for img
  proof -
    from that have "PdfReader_file fs (str_path src) = Inl (PdfReadError ''EOF marker not found'')"
      by (simp add: PdfReader_file_def read_file_def)
    then show ?thesis
      unfolding step by simp
  qed
qed

theorem pdf_branch_by_lowercased_suffix_witness:
  "lower (path_suffix (Path [] [''photos'', ''X.PDF''])) = ''.pdf''
   \<and> has_valid_extension (Path [] [''photos'', ''X.PDF''])
   \<and> example_fs (str_path (Path [] [''photos'', ''X.PDF''])) = Some (File (PdfData [SourcePage 3]))
   \<and> process_files example_fs 300 [SourcePage 0] [Path [] [''photos'', ''X.PDF'']] =
       Inr [SourcePage 0, SourcePage 3]"
proof -
  let ?src = "Path [] [''photos'', ''X.PDF'']"
  have h: "lower (path_suffix ?src) = ''.pdf''"
    by (simp add: path_suffix_def path_name_def lower_def lower_char_def)
  have d: "example_fs (str_path ?src) = Some (File (PdfData [SourcePage 3]))"
    by (simp add: str_path_def example_fs_def)
  note t = pdf_branch_by_lowercased_suffix [OF h, of example_fs 300 "[SourcePage 0]" "[]"]
  from t have v: "has_valid_extension ?src"
    by (rule conjunct1)
  from t d have "process_files example_fs 300 [SourcePage 0] [?src] =
      Inr ([SourcePage 0] @ [SourcePage 3])"
    by blast
  with h v d show ?thesis by simp
qed

text \<open>
  C3. When the save path names an existing directory, the resolved save path, which
  is also the returned value, is the save path joined with the name of the input
  directory followed by \<open>_combined_output.pdf\<close>; for \<open>out/\<close> and \<open>photos\<close> it is
  \<open>out/photos_combined_output.pdf\<close>.
\<close>

theorem save_path_inside_directory:
  assumes "is_dir fs (ensure_path save_path)"
  shows "resolve_save_path fs directory save_path =
       joinpath (ensure_path save_path)
         (path_name (ensure_path directory) @ ''_combined_output.pdf'')
     \<and> (\<forall>fs' out. convert_files_to_pdf fs directory save_path image_dpi = (fs', Inr out) \<longrightarrow>
           out = joinpath (ensure_path save_path)
             (path_name (ensure_path directory) @ ''_combined_output.pdf''))
     \<and> (ensure_path save_path = Path_of ''out/'' \<and> path_name (ensure_path directory) = ''photos'' \<longrightarrow>
           str_path (resolve_save_path fs directory save_path) = ''out/photos_combined_output.pdf'')"
proof (intro conjI allI impI)
  show r: "resolve_save_path fs directory save_path =
       joinpath (ensure_path save_path)
         (path_name (ensure_path directory) @ ''_combined_output.pdf'')"
    using assms by (rule resolve_save_path_is_dir)
  show "out = joinpath (ensure_path save_path)
         (path_name (ensure_path directory) @ ''_combined_output.pdf'')"
    if "convert_files_to_pdf fs directory save_path image_dpi = (fs', Inr out)" for fs' out
    using convert_files_to_pdf_Inr [OF that] r by auto
  show "str_path (resolve_save_path fs directory save_path) = ''out/photos_combined_output.pdf''"
    if "ensure_path save_path = Path_of ''out/'' \<and> path_name (ensure_path directory) = ''photos''"
    using that unfolding r
    by (simp add: joinpath_def Path_of_def splitroot_def str_path_def)
qed

theorem save_path_inside_directory_witness:
  "is_dir example_fs (ensure_path (Str ''out/''))
   \<and> resolve_save_path example_fs (Str ''photos'') (Str ''out/'') =
       Path [] [''out'', ''photos_combined_output.pdf'']
   \<and> snd (convert_files_to_pdf example_fs (Str ''photos'') (Str ''out/'') 300) =
       Inr (Path [] [''out'', ''photos_combined_output.pdf''])
   \<and> str_path (resolve_save_path example_fs (Str ''photos'') (Str ''out/'')) =
       ''out/photos_combined_output.pdf''"
proof -
  have h: "is_dir example_fs (ensure_path (Str ''out/''))"
    by (simp add: example_fs_def is_dir_def ensure_path_def Path_of_def splitroot_def str_path_def)
  have j: "joinpath (ensure_path (Str ''out/''))
         (path_name (ensure_path (Str ''photos'')) @ ''_combined_output.pdf'') =
       Path [] [''out'', ''photos_combined_output.pdf'']"
    by (simp add: joinpath_def ensure_path_def Path_of_def splitroot_def path_name_def)
  have r: "snd (convert_files_to_pdf example_fs (Str ''photos'') (Str ''out/'') 300) =
       Inr (Path [] [''out'', ''photos_combined_output.pdf''])"
    by (simp add: example_fs_def eval_defs)
  have e: "ensure_path (Str ''out/'') = Path_of ''out/''
      \<and> path_name (ensure_path (Str ''photos'')) = ''photos''"
    by (simp add: ensure_path_def Path_of_def splitroot_def path_name_def)
  from save_path_inside_directory [OF h, of "Str ''photos''" 300] j r e h show ?thesis
    by (simp add: str_path_def)
qed

text \<open>
  C4. The file system is written only after the pages of all scanned files are
  collected: when the scan fails, or reading or rasterising any file fails, the
  operation ends with that error and the file system is the one it started with.
\<close>

theorem failure_before_write_leaves_files:
  "(get_input_files fs directory = Inl e \<longrightarrow>
      convert_files_to_pdf fs directory save_path image_dpi = (fs, Inl e))
   \<and> (get_input_files fs directory = Inr files
        \<and> process_files fs image_dpi PdfWriter files = Inl e \<longrightarrow>
      convert_files_to_pdf fs directory save_path image_dpi = (fs, Inl e))"
  by (simp add: convert_files_to_pdf_def get_input_files_ensure_path Let_def)

theorem failure_before_write_leaves_files_witness:
  "get_input_files corrupt_fs (Str ''in'') =
     Inr [Path [] [''in'', ''1.png''], Path [] [''in'', ''2.png''],
          Path [] [''in'', ''3.png''], Path [] [''in'', ''4.png'']]
   \<and> process_files corrupt_fs 300 PdfWriter
        [Path [] [''in'', ''1.png''], Path [] [''in'', ''2.png''],
         Path [] [''in'', ''3.png''], Path [] [''in'', ''4.png'']] =
       Inl (UnidentifiedImageError ''in/3.png'')
   \<and> convert_files_to_pdf corrupt_fs (Str ''in'') (Str ''old.pdf'') 300 =
       (corrupt_fs, Inl (UnidentifiedImageError ''in/3.png''))
   \<and> corrupt_fs ''old.pdf'' = Some (File (PdfData [SourcePage 5]))"
proof -
  let ?files = "[Path [] [''in'', ''1.png''], Path [] [''in'', ''2.png''],
          Path [] [''in'', ''3.png''], Path [] [''in'', ''4.png'']]"
  have scan: "get_input_files corrupt_fs (Str ''in'') = Inr ?files"
    by (simp add: corrupt_fs_def eval_defs)
  have loop: "process_files corrupt_fs 300 PdfWriter ?files =
       Inl (UnidentifiedImageError ''in/3.png'')"
    by (simp add: corrupt_fs_def eval_defs)
  have old: "corrupt_fs ''old.pdf'' = Some (File (PdfData [SourcePage 5]))"
    by (simp add: corrupt_fs_def)
  from failure_before_write_leaves_files
    [of corrupt_fs "Str ''in''" "UnidentifiedImageError ''in/3.png''" "Str ''old.pdf''" 300 ?files]
    scan loop old
  show ?thesis by simp
qed

text \<open>
  C5. When the only input file of a directory is a PDF, and the save path can be
  opened for writing, the output document has the pages of that PDF, in the same
  number and order.
\<close>

theorem single_pdf_round_trip:
  assumes "get_input_files fs directory = Inr [src]"
    and "lower (path_suffix src) = ''.pdf''"
    and "fs (str_path src) = Some (File (PdfData pages))"
    and "open_wb fs (resolve_save_path fs directory save_path) = Inr fs1"
  shows "snd (convert_files_to_pdf fs directory save_path image_dpi) =
       Inr (resolve_save_path fs directory save_path)
     \<and> fst (convert_files_to_pdf fs directory save_path image_dpi)
         (str_path (resolve_save_path fs directory save_path)) = Some (File (PdfData pages))"
proof -
  have "PdfReader_file fs (str_path src) = Inr pages"
    using assms(3) by (simp add: PdfReader_file_Inr)
  then have "process_files fs image_dpi PdfWriter [src] = Inr pages"
    using assms(2) by (simp add: add_pages_append PdfWriter_def)
  then show ?thesis
    using assms(1,4)
    by (simp add: convert_files_to_pdf_def get_input_files_ensure_path Let_def PdfWriter_write_def)
qed

theorem single_pdf_round_trip_witness:
  "get_input_files single_pdf_fs (Str ''docs'') = Inr [Path [] [''docs'', ''report.pdf'']]
   \<and> single_pdf_fs ''docs/report.pdf'' =
       Some (File (PdfData [SourcePage 1, SourcePage 2, SourcePage 3]))
   \<and> snd (convert_files_to_pdf single_pdf_fs (Str ''docs'') (Str ''merged.pdf'') 300) =
       Inr (Path [] [''merged.pdf''])
   \<and> fst (convert_files_to_pdf single_pdf_fs (Str ''docs'') (Str ''merged.pdf'') 300)
        ''merged.pdf'' = Some (File (PdfData [SourcePage 1, SourcePage 2, SourcePage 3]))"
proof -
  let ?src = "Path [] [''docs'', ''report.pdf'']"
  let ?pages = "[SourcePage 1, SourcePage 2, SourcePage 3]"
  let ?fs1 = "single_pdf_fs(''.'' \<mapsto> Directory [''docs'', ''merged.pdf''],
      ''merged.pdf'' \<mapsto> File NoData)"
  have scan: "get_input_files single_pdf_fs (Str ''docs'') = Inr [?src]"
    by (simp add: single_pdf_fs_def eval_defs)
  have ext: "lower (path_suffix ?src) = ''.pdf''"
    by (simp add: path_suffix_def path_name_def lower_def lower_char_def)
  have s: "str_path ?src = ''docs/report.pdf''"
    by (simp add: str_path_def)
  have doc: "single_pdf_fs (str_path ?src) = Some (File (PdfData ?pages))"
    by (simp add: s single_pdf_fs_def)
  have out: "resolve_save_path single_pdf_fs (Str ''docs'') (Str ''merged.pdf'') =
      Path [] [''merged.pdf'']"
    by (simp add: single_pdf_fs_def resolve_save_path_def ensure_path_def Path_of_def
        splitroot_def is_dir_def str_path_def)
  have w: "open_wb single_pdf_fs
      (resolve_save_path single_pdf_fs (Str ''docs'') (Str ''merged.pdf'')) = Inr ?fs1"
    unfolding out
    by (simp add: single_pdf_fs_def open_wb_def str_path_def path_parent_def path_name_def)
  from single_pdf_round_trip [of single_pdf_fs "Str ''docs''" ?src ?pages "Str ''merged.pdf''" ?fs1 300]
    scan ext doc w out s
  show ?thesis by (simp add: str_path_def)
qed

text \<open>
  C7. When no entry of the directory has a listed extension, the scanner returns the
  empty list, and if the save path can be opened for writing, the operation returns the
  resolved save path and writes a document of zero pages there.
\<close>

theorem no_input_files_empty_document:
  assumes "fs (str_path (ensure_path directory)) = Some (Directory names)"
    and "\<forall>n \<in> set names. \<not> has_valid_extension (make_child_relpath (ensure_path directory) n)"
    and "open_wb fs (resolve_save_path fs directory save_path) = Inr fs1"
  shows "get_input_files fs directory = Inr []
     \<and> snd (convert_files_to_pdf fs directory save_path image_dpi) =
         Inr (resolve_save_path fs directory save_path)
     \<and> fst (convert_files_to_pdf fs directory save_path image_dpi)
         (str_path (resolve_save_path fs directory save_path)) = Some (File (PdfData []))"
proof -
  have "filter has_valid_extension (map (make_child_relpath (ensure_path directory)) names) = []"
    using assms(2) by (simp add: filter_empty_conv)
  then have scan: "get_input_files fs directory = Inr []"
    using assms(1) by (simp add: get_input_files_Directory [of fs directory names])
  then show ?thesis
    using assms(3)
    by (simp add: convert_files_to_pdf_def get_input_files_ensure_path Let_def PdfWriter_write_def
        PdfWriter_def)
qed

theorem no_input_files_empty_document_witness:
  "no_match_fs (str_path (ensure_path (Str ''misc''))) =
     Some (Directory [''notes.txt'', ''archive.tar.gz'', ''.pdf'', ''png'', ''sub''])
   \<and> get_input_files no_match_fs (Str ''misc'') = Inr []
   \<and> snd (convert_files_to_pdf no_match_fs (Str ''misc'') (Str ''empty.pdf'') 300) =
       Inr (Path [] [''empty.pdf''])
   \<and> fst (convert_files_to_pdf no_match_fs (Str ''misc'') (Str ''empty.pdf'') 300)
        ''empty.pdf'' = Some (File (PdfData []))"
proof -
  let ?names = "[''notes.txt'', ''archive.tar.gz'', ''.pdf'', ''png'', ''sub'']"
  let ?fs1 = "no_match_fs(''.'' \<mapsto> Directory [''misc'', ''empty.pdf''],
      ''empty.pdf'' \<mapsto> File NoData)"
  have d: "ensure_path (Str ''misc'') = Path [] [''misc'']"
    by (simp add: ensure_path_def Path_of_def splitroot_def)
  have h1: "no_match_fs (str_path (ensure_path (Str ''misc''))) = Some (Directory ?names)"
    by (simp add: d str_path_def no_match_fs_def)
  have h2: "\<forall>n \<in> set ?names.
      \<not> has_valid_extension (make_child_relpath (ensure_path (Str ''misc'')) n)"
    by (simp add: d has_valid_extension_def make_child_relpath_def path_suffix_def path_name_def
        lower_def lower_char_def valid_extensions_def)
  have out: "resolve_save_path no_match_fs (Str ''misc'') (Str ''empty.pdf'') =
      Path [] [''empty.pdf'']"
    by (simp add: no_match_fs_def resolve_save_path_def ensure_path_def Path_of_def
        splitroot_def is_dir_def str_path_def)
  have h3: "open_wb no_match_fs
      (resolve_save_path no_match_fs (Str ''misc'') (Str ''empty.pdf'')) = Inr ?fs1"
    unfolding out
    by (simp add: no_match_fs_def open_wb_def str_path_def path_parent_def path_name_def)
  from no_input_files_empty_document
    [of no_match_fs "Str ''misc''" ?names "Str ''empty.pdf''" ?fs1 300] h1 h2 h3 out
  show ?thesis by (simp add: str_path_def)
qed

subsection \<open>The rasteriser\<close>




subsection \<open>The command line\<close>



end
